theory Spec2Isabelle
  imports Complex_Main "HOL-Library.Sublist"
begin

section \<open>Python values and errors\<close>

text \<open>
  The agents of \<^verbatim>\<open>agents.py\<close> are Python coroutines over dynamically typed values.
  Exceptions are values of the type \<open>error\<close>; a computation that may raise returns
  \<open>error + 'a\<close>, with \<open>Inl\<close> for the exception.
\<close>

datatype error =
    ValueError string
  | JSONDecodeError string
  | KeyError string
  | TypeError
  | AttributeError
  | CapabilityError string

section \<open>Strings\<close>

text \<open>
  A Python string is a list of code points; a \<open>char\<close> stands for a code point below 256.
  \<open>isspace\<close> is the whitespace class of \<^verbatim>\<open>str.strip\<close> and of the pattern \<^verbatim>\<open>\s\<close> on
  these code points.
\<close>

definition newline :: char where
  "newline = CHR 0x0A"

definition isspace :: "char \<Rightarrow> bool" where
  "isspace c = ((of_char c :: nat) \<in> {9, 10, 11, 12, 13, 28, 29, 30, 31, 32, 133, 160})"

definition strip :: "string \<Rightarrow> string" where
  "strip s = rev (dropWhile isspace (rev (dropWhile isspace s)))"

text \<open>\<^verbatim>\<open>s.find(c)\<close> and \<^verbatim>\<open>s.rfind(c)\<close> for a single character: \<open>-1\<close> when absent.\<close>

definition py_find :: "string \<Rightarrow> char \<Rightarrow> int" where
  "py_find s c = (if c \<in> set s then int (length (takeWhile (\<lambda>x. x \<noteq> c) s)) else - 1)"

definition py_rfind :: "string \<Rightarrow> char \<Rightarrow> int" where
  "py_rfind s c =
     (if c \<in> set s then int (length s) - 1 - int (length (takeWhile (\<lambda>x. x \<noteq> c) (rev s)))
      else - 1)"

text \<open>The slice \<^verbatim>\<open>s[a:b]\<close> for \<open>0 \<le> a\<close> and \<open>0 \<le> b\<close>.\<close>

definition py_slice :: "string \<Rightarrow> int \<Rightarrow> int \<Rightarrow> string" where
  "py_slice s a b = take (nat (b - a)) (drop (nat a) s)"

text \<open>
  \<^verbatim>\<open>re.split(r'\n\s*\n', text)\<close>. A match starts at a newline and, the whitespace
  being matched greedily, ends at the last newline of the whitespace run that follows;
  \<open>blank_rest cs\<close> is the text after the match when the text after its first newline is
  \<open>cs\<close>. The scan resumes after the match, and the pieces between the matches are
  returned.
\<close>

definition blank_rest :: "string \<Rightarrow> string option" where
  "blank_rest cs =
     (let ws = takeWhile isspace cs
      in if newline \<in> set ws
         then Some (drop (length ws - length (takeWhile (\<lambda>x. x \<noteq> newline) (rev ws))) cs)
         else None)"

function re_split :: "string \<Rightarrow> string \<Rightarrow> string list" where
  "re_split piece [] = [piece]"
| "re_split piece (c # cs) =
     (if c = newline then
        (case blank_rest cs of
           Some rest \<Rightarrow> piece # re_split [] rest
         | None \<Rightarrow> re_split (piece @ [c]) cs)
      else re_split (piece @ [c]) cs)"
  by pat_completeness auto
termination
  by (relation "measure (\<lambda>(piece, s). length s)")
    (auto simp: blank_rest_def Let_def split: if_splits)

text \<open>\<^verbatim>\<open>'\n\n'.join(parts)\<close>\<close>

definition para_sep :: string where
  "para_sep = [newline, newline]"

fun join_paras :: "string list \<Rightarrow> string" where
  "join_paras [] = []"
| "join_paras [p] = p"
| "join_paras (p # q # ps) = p @ para_sep @ join_paras (q # ps)"

section \<open>Python values\<close>

text \<open>
  A finite float is the rational it denotes. \<open>pyval\<close> are the values \<^verbatim>\<open>json.loads\<close>
  returns: \<open>PNone\<close> is \<^verbatim>\<open>None\<close>, a dictionary is the list of its items in insertion
  order. \<open>truthy\<close> is the truth value Python gives a value in a condition.
\<close>

datatype pyfloat = Finite rat | PosInf | NegInf | NaN

datatype pyval =
    PNone
  | PBool bool
  | PInt int
  | PFloat pyfloat
  | PStr string
  | PList "pyval list"
  | PDict "(string \<times> pyval) list"

fun truthy :: "pyval \<Rightarrow> bool" where
  "truthy PNone = False"
| "truthy (PBool b) = b"
| "truthy (PInt i) = (i \<noteq> 0)"
| "truthy (PFloat f) = (f \<noteq> Finite 0)"
| "truthy (PStr s) = (s \<noteq> [])"
| "truthy (PList xs) = (xs \<noteq> [])"
| "truthy (PDict kvs) = (kvs \<noteq> [])"


text \<open>
  The values a Chroma metadata dictionary holds, also the type of a book id (a string key
  of the record store, or an integer). \<open>scalar_eq\<close> is Python's \<^verbatim>\<open>==\<close> on them: numbers
  and booleans compare by value, a NaN equals nothing.
\<close>

datatype scalar = SStr string | SInt int | SFloat pyfloat | SBool bool

fun of_scalar :: "scalar \<Rightarrow> pyval" where
  "of_scalar (SStr s) = PStr s"
| "of_scalar (SInt i) = PInt i"
| "of_scalar (SFloat f) = PFloat f"
| "of_scalar (SBool b) = PBool b"



text \<open>
  The functions of the Python library the agents call and that are taken as given:
  \<open>json_loads\<close> is \<^verbatim>\<open>json.loads\<close> (\<open>None\<close> when it raises \<^verbatim>\<open>JSONDecodeError\<close>),
  \<open>json_dumps\<close> is \<^verbatim>\<open>json.dumps\<close>, \<open>py_str\<close> is \<^verbatim>\<open>str\<close>,
  \<open>relevance_3f d\<close> is \<^verbatim>\<open>f"{1 - d:.3f}"\<close>, \<open>one_minus d\<close> is \<^verbatim>\<open>1 - d\<close> on floats,
  \<open>re_search_word w s\<close> tells whether \<^verbatim>\<open>re.search(r'\bw\b', s, re.I)\<close> finds a match,
  \<open>round_str x\<close> is \<^verbatim>\<open>f"{round(x)}"\<close> and \<open>format_2f x\<close> is \<^verbatim>\<open>f"{x:.2f}"\<close>.
\<close>

record pylib =
  json_loads :: "string \<Rightarrow> pyval option"
  json_dumps :: "pyval \<Rightarrow> string"
  py_str :: "pyval \<Rightarrow> string"
  relevance_3f :: "pyfloat \<Rightarrow> string"
  one_minus :: "pyfloat \<Rightarrow> pyfloat"
  re_search_word :: "string \<Rightarrow> string \<Rightarrow> bool"
  round_str :: "rat \<Rightarrow> string"
  format_2f :: "rat \<Rightarrow> string"

text \<open>A value inside an f-string: a string stands for itself.\<close>

definition fmt :: "pylib \<Rightarrow> pyval \<Rightarrow> string" where
  "fmt L v = (case v of PStr s \<Rightarrow> s | _ \<Rightarrow> py_str L v)"

text \<open>\<^verbatim>\<open>meta.get(key, default)\<close> inside an f-string.\<close>

definition fmt_meta :: "pylib \<Rightarrow> (string \<times> scalar) list \<Rightarrow> string \<Rightarrow> string \<Rightarrow> string" where
  "fmt_meta L meta key dflt =
     (case map_of meta key of None \<Rightarrow> dflt | Some v \<Rightarrow> fmt L (of_scalar v))"

section \<open>The completion capability\<close>

text \<open>
  A request to the chat completion API. The client answers a request with the content of
  the first choice (\<open>None\<close> when the content is \<^verbatim>\<open>None\<close>) or raises; its answer may
  depend on the requests made before, which the log records in order.
\<close>

record request =
  messages :: "(string \<times> string) list"
  model :: string
  max_tokens :: nat
  temperature :: rat

type_synonym log = "request list"

type_synonym client = "log \<Rightarrow> request \<Rightarrow> error + string option"

definition call_openai :: "client \<Rightarrow> (string \<times> string) list \<Rightarrow> nat \<Rightarrow> log \<Rightarrow> (error + string) \<times> log" where
  "call_openai cl prompt max_tok lg =
     (let req = \<lparr>messages = prompt, model = ''gpt-4o-mini'', max_tokens = max_tok, temperature = 0\<rparr>
      in case cl lg req of
           Inl err \<Rightarrow> (Inl err, lg @ [req])
         | Inr content \<Rightarrow> (Inr (case content of None \<Rightarrow> [] | Some t \<Rightarrow> t), lg @ [req]))"

section \<open>The vector store\<close>

text \<open>
  \<open>raw_result\<close> is what \<^verbatim>\<open>collection.query\<close> returns for one query text: one list per
  query text in each field, an absent or empty field being \<open>[]\<close>; \<open>raw_distances\<close> is
  \<open>None\<close> when the key is absent. A collection is its query operation on the query text, the
  result width and the \<^verbatim>\<open>where\<close> clause; getting the collection may raise.
\<close>

record raw_result =
  raw_documents :: "pyval list list"
  raw_metadatas :: "(string \<times> scalar) list list list"
  raw_ids :: "string list list"
  raw_distances :: "pyfloat list list option"

record query_result =
  documents :: "pyval list"
  metadatas :: "(string \<times> scalar) list list"
  ids :: "string list"
  distances :: "pyfloat list"

type_synonym collection = "string \<Rightarrow> nat \<Rightarrow> (string \<times> scalar) list option \<Rightarrow> error + raw_result"

type_synonym chroma = "error + collection"

definition empty_result :: query_result where
  "empty_result = \<lparr>documents = [], metadatas = [], ids = [], distances = []\<rparr>"

definition first_or_empty :: "'a list list \<Rightarrow> 'a list" where
  "first_or_empty xss = (case xss of [] \<Rightarrow> [] | xs # _ \<Rightarrow> xs)"

text \<open>
  \<^verbatim>\<open>chroma_service.query\<close>. Getting the collection is outside the \<^verbatim>\<open>try\<close>; every
  exception of the query itself, and of flattening its result, is caught and answered by
  the empty result.
\<close>

definition query :: "chroma \<Rightarrow> string \<Rightarrow> nat \<Rightarrow> scalar option \<Rightarrow> error + query_result" where
  "query get_collection query_text n_results book_id =
     (case get_collection of
        Inl err \<Rightarrow> Inl err
      | Inr collection \<Rightarrow>
          (let where_clause = (case book_id of None \<Rightarrow> None | Some b \<Rightarrow> Some [(''bookId'', b)])
           in case collection query_text n_results where_clause of
                Inl err \<Rightarrow> Inr empty_result
              | Inr results \<Rightarrow>
                  (case raw_distances results of
                     Some [] \<Rightarrow> Inr empty_result
                   | Some (ds # _) \<Rightarrow>
                       Inr \<lparr>documents = first_or_empty (raw_documents results),
                            metadatas = first_or_empty (raw_metadatas results),
                            ids = first_or_empty (raw_ids results),
                            distances = ds\<rparr>
                   | None \<Rightarrow>
                       Inr \<lparr>documents = first_or_empty (raw_documents results),
                            metadatas = first_or_empty (raw_metadatas results),
                            ids = first_or_empty (raw_ids results),
                            distances = []\<rparr>)))"

text \<open>The agents call it as \<^verbatim>\<open>chroma_query(topic, n)\<close>, without a book id.\<close>

definition chroma_query :: "chroma \<Rightarrow> string \<Rightarrow> nat \<Rightarrow> error + query_result" where
  "chroma_query ch topic n_results = query ch topic n_results None"

section \<open>The curriculum agent: chunking\<close>

record chunk =
  position :: nat
  chunk_text :: string

text \<open>\<^verbatim>\<open>[p.strip() for p in re.split(r'\n\s*\n', text) if p.strip()]\<close>\<close>

definition paragraphs :: "string \<Rightarrow> string list" where
  "paragraphs txt = map strip (filter (\<lambda>p. strip p \<noteq> []) (re_split [] txt))"

text \<open>
  The body of the loop over the paragraphs, on its three variables \<open>chunks\<close>, \<open>current\<close>
  and \<open>position\<close>; \<open>chunk_size\<close> is a Python integer. The loop itself is the left fold of
  the body over the paragraphs.
\<close>

definition chunk_step :: "int \<Rightarrow> chunk list \<times> string \<times> nat \<Rightarrow> string \<Rightarrow> chunk list \<times> string \<times> nat" where
  "chunk_step chunk_size st para =
     (case st of (chunks, current, pos) \<Rightarrow>
        (let combined = (if current \<noteq> [] then current @ para_sep @ para else para)
         in if int (length combined) > chunk_size \<and> current \<noteq> []
            then (chunks @ [\<lparr>position = pos, chunk_text = current\<rparr>], para, pos + 1)
            else (chunks, combined, pos)))"

definition chunk_loop :: "int \<Rightarrow> string list \<Rightarrow> chunk list \<times> string \<times> nat" where
  "chunk_loop chunk_size ps = foldl (chunk_step chunk_size) ([], [], 0) ps"

definition chunk_paragraphs :: "int \<Rightarrow> string list \<Rightarrow> chunk list" where
  "chunk_paragraphs chunk_size ps =
     (case chunk_loop chunk_size ps of
        (chunks, current, pos) \<Rightarrow>
          if current \<noteq> [] then chunks @ [\<lparr>position = pos, chunk_text = current\<rparr>] else chunks)"

definition text_chunks :: "int \<Rightarrow> string \<Rightarrow> chunk list" where
  "text_chunks chunk_size txt = chunk_paragraphs chunk_size (paragraphs txt)"


section \<open>The curriculum agent: summarizing a chunk\<close>

record chunk_metadata =
  bookId :: scalar
  meta_position :: nat
  summary :: pyval
  key_concepts :: pyval
  keywords' :: pyval

record db_chunk =
  chunk_id :: string
  db_text :: string
  metadata :: chunk_metadata

definition summarization_prompt :: "string \<Rightarrow> (string \<times> string) list" where
  \<open>summarization_prompt short_context =
     [(''system'', ''Extract key information concisely.''),
      (''user'', ''From this text, extract:'' @ [newline] @ ''1. A 2-sentence summary'' @ [newline] @ ''2. 3 key concepts (comma-separated)'' @ [newline] @ ''3. 5 keywords (comma-separated)'' @ [newline, newline] @ ''TEXT: '' @ short_context
         @ [newline, newline] @ ''Respond in JSON: {"summary": "...", "key_concepts": "...", "keywords": "..."}'')]\<close>

definition make_chunk_id :: "pylib \<Rightarrow> scalar \<Rightarrow> nat \<Rightarrow> string" where
  "make_chunk_id L book_id pos = fmt L (of_scalar book_id) @ ''-'' @ fmt L (PInt (int pos))"

text \<open>
  The parse of the completion inside \<^verbatim>\<open>process_single_chunk\<close>: the whole text, then the
  slice from the first \<^verbatim>\<open>{\<close> to the last \<^verbatim>\<open>}\<close>, else \<^verbatim>\<open>None\<close>.
\<close>

definition parse_summary :: "pylib \<Rightarrow> string \<Rightarrow> pyval" where
  "parse_summary L raw =
     (case json_loads L raw of
        Some v \<Rightarrow> v
      | None \<Rightarrow>
          (let j_start = py_find raw (CHR ''{''); j_end = py_rfind raw (CHR ''}'') + 1
           in if j_start \<ge> 0 \<and> j_end > j_start
              then (case json_loads L (py_slice raw j_start j_end) of
                      Some v \<Rightarrow> v
                    | None \<Rightarrow> PNone)
              else PNone))"

text \<open>
  The body of the \<^verbatim>\<open>try\<close> after the completion call. \<^verbatim>\<open>parsed.get\<close> exists on a
  dictionary only: a true value of another type raises \<^verbatim>\<open>AttributeError\<close>.
\<close>

definition summarize_parsed :: "pylib \<Rightarrow> chunk \<Rightarrow> scalar \<Rightarrow> string \<Rightarrow> error + db_chunk" where
  "summarize_parsed L c book_id raw =
     (let parsed = parse_summary L raw
      in if truthy parsed then
           (case parsed of
              PDict kvs \<Rightarrow>
                Inr \<lparr>chunk_id = make_chunk_id L book_id (position c), db_text = chunk_text c,
                     metadata = \<lparr>bookId = book_id, meta_position = position c,
                       summary = (case map_of kvs ''summary'' of None \<Rightarrow> PStr (take 200 raw) | Some v \<Rightarrow> v),
                       key_concepts = (case map_of kvs ''key_concepts'' of None \<Rightarrow> PStr [] | Some v \<Rightarrow> v),
                       keywords' = (case map_of kvs ''keywords'' of None \<Rightarrow> PStr [] | Some v \<Rightarrow> v)\<rparr>\<rparr>
            | _ \<Rightarrow> Inl AttributeError)
         else
           Inr \<lparr>chunk_id = make_chunk_id L book_id (position c), db_text = chunk_text c,
                metadata = \<lparr>bookId = book_id, meta_position = position c,
                  summary = PStr (take 200 raw), key_concepts = PStr [], keywords' = PStr []\<rparr>\<rparr>)"

text \<open>The chunk returned by the \<^verbatim>\<open>except\<close> branch.\<close>

definition minimal_chunk :: "pylib \<Rightarrow> chunk \<Rightarrow> scalar \<Rightarrow> db_chunk" where
  "minimal_chunk L c book_id =
     \<lparr>chunk_id = make_chunk_id L book_id (position c), db_text = chunk_text c,
      metadata = \<lparr>bookId = book_id, meta_position = position c,
        summary = PStr (take 200 (chunk_text c)), key_concepts = PStr [], keywords' = PStr []\<rparr>\<rparr>"

definition process_single_chunk :: "pylib \<Rightarrow> client \<Rightarrow> chunk \<Rightarrow> scalar \<Rightarrow> log \<Rightarrow> (error + db_chunk) \<times> log" where
  "process_single_chunk L cl c book_id lg =
     (let short_context = (if length (chunk_text c) > 3000 then take 3000 (chunk_text c) else chunk_text c)
      in case call_openai cl (summarization_prompt short_context) 200 lg of
           (Inl err, lg1) \<Rightarrow> (Inr (minimal_chunk L c book_id), lg1)
         | (Inr raw, lg1) \<Rightarrow>
             (case summarize_parsed L c book_id raw of
                Inl err \<Rightarrow> (Inr (minimal_chunk L c book_id), lg1)
              | Inr r \<Rightarrow> (Inr r, lg1)))"

section \<open>The curriculum agent: batches\<close>

text \<open>
  \<^verbatim>\<open>asyncio.gather\<close> on coroutines that never suspend: they run one after the other in
  the order given, and the results come in that order; an exception of one of them is
  raised to the caller.
\<close>

primrec gather :: "(log \<Rightarrow> (error + 'a) \<times> log) list \<Rightarrow> log \<Rightarrow> (error + 'a list) \<times> log" where
  "gather [] lg = (Inr [], lg)"
| "gather (t # ts) lg =
     (case t lg of (r, lg1) \<Rightarrow>
        (case gather ts lg1 of (rs, lg2) \<Rightarrow>
           ((case r of
               Inl err \<Rightarrow> Inl err
             | Inr x \<Rightarrow> (case rs of Inl err \<Rightarrow> Inl err | Inr xs \<Rightarrow> Inr (x # xs))), lg2)))"

text \<open>\<^verbatim>\<open>range(i, n, step)\<close> for a positive step.\<close>

function range_step :: "nat \<Rightarrow> nat \<Rightarrow> nat \<Rightarrow> nat list" where
  "range_step i n step = (if i < n \<and> 0 < step then i # range_step (i + step) n step else [])"
  by pat_completeness auto
termination
  by (relation "measure (\<lambda>(i, n, step). n - i)") auto

declare range_step.simps [simp del]

definition batch_size :: nat where
  "batch_size = 3"

text \<open>The batch \<^verbatim>\<open>chunks[i:i + batch_size]\<close>.\<close>

definition batch_at :: "'a list \<Rightarrow> nat \<Rightarrow> 'a list" where
  "batch_at chunks i = take batch_size (drop i chunks)"

primrec batch_loop :: "pylib \<Rightarrow> client \<Rightarrow> scalar \<Rightarrow> chunk list \<Rightarrow> nat list \<Rightarrow> db_chunk list \<Rightarrow> log \<Rightarrow> (error + db_chunk list) \<times> log" where
  "batch_loop L cl book_id chunks [] db_chunks lg = (Inr db_chunks, lg)"
| "batch_loop L cl book_id chunks (i # starts) db_chunks lg =
     (case gather (map (\<lambda>c. process_single_chunk L cl c book_id) (batch_at chunks i)) lg of
        (Inl err, lg1) \<Rightarrow> (Inl err, lg1)
      | (Inr batch_results, lg1) \<Rightarrow>
          batch_loop L cl book_id chunks starts (db_chunks @ batch_results) lg1)"

definition process_batches :: "pylib \<Rightarrow> client \<Rightarrow> scalar \<Rightarrow> chunk list \<Rightarrow> log \<Rightarrow> (error + db_chunk list) \<times> log" where
  "process_batches L cl book_id chunks lg =
     batch_loop L cl book_id chunks (range_step 0 (length chunks) batch_size) [] lg"

text \<open>
  \<^verbatim>\<open>run_curriculum_agent\<close> up to the chunks handed to the vector store; \<open>add_chunks\<close> is
  the store's answer to them (an exception or nothing). The summary of the result slices
  the chunk's summary, which raises on a value that is not a string.
\<close>

record chunk_summary =
  cs_position :: nat
  cs_summary :: string
  cs_key_concepts :: pyval

record curriculum_result =
  cr_book_id :: scalar
  inserted_chunks :: nat
  chunks_summary :: "chunk_summary list"

definition summary_line :: "db_chunk \<Rightarrow> error + chunk_summary" where
  "summary_line c =
     (case summary (metadata c) of
        PStr s \<Rightarrow> Inr \<lparr>cs_position = meta_position (metadata c), cs_summary = take 100 s @ ''...'',
                      cs_key_concepts = key_concepts (metadata c)\<rparr>
      | _ \<Rightarrow> Inl TypeError)"

primrec collect :: "(error + 'a) list \<Rightarrow> error + 'a list" where
  "collect [] = Inr []"
| "collect (r # rs) =
     (case r of
        Inl err \<Rightarrow> Inl err
      | Inr x \<Rightarrow> (case collect rs of Inl err \<Rightarrow> Inl err | Inr xs \<Rightarrow> Inr (x # xs)))"

definition run_curriculum_agent :: "pylib \<Rightarrow> client \<Rightarrow> (scalar \<Rightarrow> db_chunk list \<Rightarrow> error option) \<Rightarrow> scalar \<Rightarrow> string \<Rightarrow> int \<Rightarrow> log \<Rightarrow> (error + curriculum_result) \<times> log" where
  "run_curriculum_agent L cl add_chunks book_id txt chunk_size lg =
     (if txt = [] \<or> \<not> truthy (of_scalar book_id)
      then (Inl (ValueError ''book_id and text are required''), lg)
      else
        (case process_batches L cl book_id (text_chunks chunk_size txt) lg of
           (Inl err, lg1) \<Rightarrow> (Inl err, lg1)
         | (Inr db_chunks, lg1) \<Rightarrow>
             (case add_chunks book_id db_chunks of
                Some err \<Rightarrow> (Inl err, lg1)
              | None \<Rightarrow>
                  (case collect (map summary_line (take 10 db_chunks)) of
                     Inl err \<Rightarrow> (Inl err, lg1)
                   | Inr lines \<Rightarrow>
                       (Inr \<lparr>cr_book_id = book_id, inserted_chunks = length db_chunks,
                             chunks_summary = lines\<rparr>, lg1)))))"

section \<open>Retrieval\<close>

text \<open>\<^verbatim>\<open>enumerate(xs)\<close>\<close>

definition enumerate0 :: "'a list \<Rightarrow> (nat \<times> 'a) list" where
  "enumerate0 xs = zip [0..<length xs] xs"

text \<open>
  \<^verbatim>\<open>get_relevant_context\<close>: every document of the query's answer, labelled with the book
  id and the position of its metadata. It takes no book id.
\<close>

definition context_label :: "pylib \<Rightarrow> query_result \<Rightarrow> nat \<times> pyval \<Rightarrow> string" where
  "context_label L resp entry =
     (case entry of (i, doc) \<Rightarrow>
        (let doc_str = (case doc of PStr s \<Rightarrow> s | _ \<Rightarrow> json_dumps L doc);
             meta = (if i < length (metadatas resp) then metadatas resp ! i else [])
         in ''--- CHUNK '' @ fmt L (PInt (int i + 1))
            @ '' (bookId='' @ fmt_meta L meta ''bookId'' ''unknown''
            @ '', pos='' @ fmt_meta L meta ''position'' ''n/a'' @ '') ---'' @ [newline] @ doc_str))"

definition get_relevant_context :: "pylib \<Rightarrow> chroma \<Rightarrow> string \<Rightarrow> nat \<Rightarrow> error + string" where
  "get_relevant_context L ch topic n_results =
     (case chroma_query ch topic n_results of
        Inl err \<Rightarrow> Inl err
      | Inr resp \<Rightarrow> Inr (join_paras (map (context_label L resp) (enumerate0 (documents resp)))))"







section \<open>Parsing and repairing a question list\<close>












section \<open>The quiz generator agent\<close>


record chunk_info =
  ci_position :: "scalar option"
  ci_summary :: string
  ci_relevance_score :: "pyfloat option"


record generator_result =
  gr_book_id :: scalar
  gr_topic :: string
  n_questions :: nat
  chunks_used :: nat
  questions :: pyval
  model_raw_output :: string
  retrieved_chunks_info :: "chunk_info list"


section \<open>The quiz validator agent\<close>

definition validator_system :: string where
  \<open>validator_system = ''You are a fact-checking validator. Only verify if the QUESTION is supported by the CONTEXT.''\<close>

definition fixer_system :: string where
  \<open>fixer_system = ''You are a quiz fixer. Regenerate a single question strictly from CONTEXT.''\<close>

definition validation_prompt :: "pylib \<Rightarrow> pyval \<Rightarrow> string \<Rightarrow> (string \<times> string) list" where
  \<open>validation_prompt L q ctx =
     [(''system'', validator_system),
      (''user'', ''Given QUESTION and CHOICES, answer with JSON { valid: boolean, reason: string }.'' @ [newline] @ ''QUESTION: '' @ json_dumps L q
         @ [newline, newline] @ ''CONTEXT:'' @ [newline] @ take 8000 ctx)]\<close>

definition fix_prompt :: "pylib \<Rightarrow> pyval \<Rightarrow> string \<Rightarrow> (string \<times> string) list" where
  \<open>fix_prompt L q ctx =
     [(''system'', fixer_system),
      (''user'', ''Original question: '' @ json_dumps L q
         @ [newline, newline] @ ''CONTEXT:'' @ [newline] @ take 8000 ctx
         @ [newline, newline] @ ''Return a single JSON object with same fields: question, choices(A-D array), correct(A-D), explanation, hint, difficulty.'')]\<close>

text \<open>
  The validation read from the completion: the decoded JSON value, whatever it is, or,
  when decoding fails, the dictionary of the heuristic.
\<close>

definition parse_validation :: "pylib \<Rightarrow> string \<Rightarrow> pyval" where
  "parse_validation L raw =
     (case json_loads L raw of
        Some v \<Rightarrow> v
      | None \<Rightarrow>
          PDict [(''valid'', PBool (re_search_word L ''true'' raw \<and> \<not> re_search_word L ''false'' raw)),
                 (''reason'', PStr (take 300 raw))])"

text \<open>\<^verbatim>\<open>validation['valid']\<close>\<close>

definition get_valid :: "pyval \<Rightarrow> error + pyval" where
  "get_valid v =
     (case v of
        PDict kvs \<Rightarrow> (case map_of kvs ''valid'' of None \<Rightarrow> Inl (KeyError ''valid'') | Some b \<Rightarrow> Inr b)
      | _ \<Rightarrow> Inl TypeError)"

record validation_result =
  vr_question :: pyval
  validation :: pyval
  fixed_question :: pyval

text \<open>The body of the loop over the questions.\<close>

definition validate_question :: "pylib \<Rightarrow> client \<Rightarrow> bool \<Rightarrow> string \<Rightarrow> pyval \<Rightarrow> log \<Rightarrow> (error + validation_result) \<times> log" where
  "validate_question L cl auto_fix ctx q lg =
     (case call_openai cl (validation_prompt L q ctx) 400 lg of
        (Inl err, lg1) \<Rightarrow> (Inl err, lg1)
      | (Inr raw, lg1) \<Rightarrow>
          (let v = parse_validation L raw
           in case get_valid v of
                Inl err \<Rightarrow> (Inl err, lg1)
              | Inr valid \<Rightarrow>
                  if \<not> truthy valid \<and> auto_fix then
                    (case call_openai cl (fix_prompt L q ctx) 500 lg1 of
                       (Inl err, lg2) \<Rightarrow> (Inl err, lg2)
                     | (Inr raw_fix, lg2) \<Rightarrow>
                         (Inr \<lparr>vr_question = q, validation = v,
                               fixed_question = (case json_loads L raw_fix of Some f \<Rightarrow> f | None \<Rightarrow> PNone)\<rparr>,
                          lg2))
                  else (Inr \<lparr>vr_question = q, validation = v, fixed_question = PNone\<rparr>, lg1)))"

primrec validate_loop :: "pylib \<Rightarrow> client \<Rightarrow> bool \<Rightarrow> string \<Rightarrow> pyval list \<Rightarrow> validation_result list \<Rightarrow> log \<Rightarrow> (error + validation_result list) \<times> log" where
  "validate_loop L cl auto_fix ctx [] results lg = (Inr results, lg)"
| "validate_loop L cl auto_fix ctx (q # qs) results lg =
     (case validate_question L cl auto_fix ctx q lg of
        (Inl err, lg1) \<Rightarrow> (Inl err, lg1)
      | (Inr r, lg1) \<Rightarrow> validate_loop L cl auto_fix ctx qs (results @ [r]) lg1)"

record validation_report =
  vq_quiz_id :: "string option"
  total_questions :: nat
  valid_count :: nat
  invalid_count :: nat
  fixed_count :: nat
  validation_results :: "validation_result list"

text \<open>
  \<^verbatim>\<open>run_quiz_validator_agent\<close>; the counts read \<^verbatim>\<open>r['validation']['valid']\<close> again.
  The log file written before returning is left out.
\<close>

definition run_quiz_validator_agent :: "pylib \<Rightarrow> client \<Rightarrow> chroma \<Rightarrow> string option \<Rightarrow> pyval list \<Rightarrow> string \<Rightarrow> bool \<Rightarrow> log \<Rightarrow> (error + validation_report) \<times> log" where
  "run_quiz_validator_agent L cl ch quiz_id qs topic auto_fix lg =
     (case get_relevant_context L ch topic 8 of
        Inl err \<Rightarrow> (Inl err, lg)
      | Inr ctx \<Rightarrow>
          (case validate_loop L cl auto_fix ctx qs [] lg of
             (Inl err, lg1) \<Rightarrow> (Inl err, lg1)
           | (Inr results, lg1) \<Rightarrow>
               (case collect (map (\<lambda>r. get_valid (validation r)) results) of
                  Inl err \<Rightarrow> (Inl err, lg1)
                | Inr valids \<Rightarrow>
                    (Inr \<lparr>vq_quiz_id = quiz_id, total_questions = length qs,
                          valid_count = length (filter truthy valids),
                          invalid_count = length (filter (\<lambda>b. \<not> truthy b) valids),
                          fixed_count = length (filter (\<lambda>r. fixed_question r \<noteq> PNone) results),
                          validation_results = results\<rparr>, lg1))))"

section \<open>Performance estimate of the adaptive agent\<close>





section \<open>The adaptive agent\<close>







section \<open>Auxiliary notions for the statements\<close>

text \<open>
  \<open>chunk_groups\<close> is the chunker seen on lists of paragraphs instead of joined strings:
  it returns, for each chunk, the paragraphs it holds. \<open>numbered\<close> attaches positions.
\<close>

definition group_step :: "int \<Rightarrow> string list list \<times> string list \<Rightarrow> string \<Rightarrow> string list list \<times> string list" where
  "group_step chunk_size gst para =
     (case gst of (dn, cur) \<Rightarrow>
        if int (length (join_paras (cur @ [para]))) > chunk_size \<and> cur \<noteq> []
        then (dn @ [cur], [para]) else (dn, cur @ [para]))"

definition chunk_groups :: "int \<Rightarrow> string list \<Rightarrow> string list list" where
  "chunk_groups chunk_size ps =
     (case foldl (group_step chunk_size) ([], []) ps of
        (dn, cur) \<Rightarrow> if cur \<noteq> [] then dn @ [cur] else dn)"

definition numbered :: "string list \<Rightarrow> chunk list" where
  "numbered ts = map (\<lambda>(i, t). \<lparr>position = i, chunk_text = t\<rparr>) (zip [0..<length ts] ts)"

definition sim :: "chunk list \<times> string \<times> nat \<Rightarrow> string list list \<times> string list \<Rightarrow> bool" where
  "sim st gst = (case st of (chunks, current, pos) \<Rightarrow> case gst of (dn, cur) \<Rightarrow>
     chunks = numbered (map join_paras dn) \<and> current = join_paras cur \<and> pos = length dn
     \<and> [] \<notin> set cur)"


text \<open>
  \<open>summarize_request c\<close> is the request \<^verbatim>\<open>process_single_chunk\<close> sends for a chunk.
  \<open>span s a b\<close> is the slice of \<open>s\<close> from the first \<open>a\<close> to the last \<open>b\<close>, when there
  is one. \<open>seq_results\<close> lists the workers' results for chunks processed one after the
  other. \<open>sample_lib\<close> is the library on the values of the examples below: on them it
  agrees with Python, elsewhere its answers are arbitrary.
\<close>

definition summarize_request :: "chunk \<Rightarrow> request" where
  "summarize_request c =
     \<lparr>messages = summarization_prompt
         (if length (chunk_text c) > 3000 then take 3000 (chunk_text c) else chunk_text c),
      model = ''gpt-4o-mini'', max_tokens = 200, temperature = 0\<rparr>"

definition span :: "string \<Rightarrow> char \<Rightarrow> char \<Rightarrow> string option" where
  "span s a b =
     (if py_find s a \<ge> 0 \<and> py_rfind s b + 1 > py_find s a
      then Some (py_slice s (py_find s a) (py_rfind s b + 1)) else None)"

definition the_chunk :: "pylib \<Rightarrow> client \<Rightarrow> chunk \<Rightarrow> scalar \<Rightarrow> log \<Rightarrow> db_chunk" where
  "the_chunk L cl c book_id lg =
     (case fst (process_single_chunk L cl c book_id lg) of
        Inr d \<Rightarrow> d | Inl err \<Rightarrow> minimal_chunk L c book_id)"

primrec seq_results :: "pylib \<Rightarrow> client \<Rightarrow> scalar \<Rightarrow> chunk list \<Rightarrow> log \<Rightarrow> db_chunk list" where
  "seq_results L cl book_id [] lg = []"
| "seq_results L cl book_id (c # cs) lg =
     the_chunk L cl c book_id lg # seq_results L cl book_id cs (lg @ [summarize_request c])"

function nat_str :: "nat \<Rightarrow> string" where
  "nat_str n = (if n < 10 then [''0123456789'' ! n] else nat_str (n div 10) @ [''0123456789'' ! (n mod 10)])"
  by pat_completeness auto

termination
  by (relation "measure (\<lambda>n. n)") auto

declare nat_str.simps [simp del]

definition sample_str :: "pyval \<Rightarrow> string" where
  "sample_str v =
     (case v of
        PInt i \<Rightarrow> (if i < 0 then ''-'' @ nat_str (nat (- i)) else nat_str (nat i))
      | PStr s \<Rightarrow> s
      | PNone \<Rightarrow> ''None''
      | PBool b \<Rightarrow> (if b then ''True'' else ''False'')
      | _ \<Rightarrow> [])"

definition sample_json :: "(string \<times> pyval) list" where
  \<open>sample_json =
     [(''[]'', PList []),
      (''{"summary": "S"}'', PDict [(''summary'', PStr ''S'')]),
      (''[{"question": "Q1"}]'', PList [PDict [(''question'', PStr ''Q1'')]]),
      (''{"questions": [{"question": "Q1"}]}'',
         PDict [(''questions'', PList [PDict [(''question'', PStr ''Q1'')]])]),
      (''[{"choices": ["x"], "correct": "Z", "explanation": "e"}]'',
         PList [PDict [(''choices'', PList [PStr ''x'']), (''correct'', PStr ''Z''),
                       (''explanation'', PStr ''e'')]]),
      (''{"reason": "x"}'', PDict [(''reason'', PStr ''x'')]),
      (''{"valid": true}'', PDict [(''valid'', PBool True)]),
      (''{"valid": false}'', PDict [(''valid'', PBool False)])]\<close>

definition sample_dumps :: "(pyval \<times> string) list" where
  \<open>sample_dumps =
     [(PDict [(''question'', PStr ''Q1'')], ''{"question": "Q1"}''),
      (PDict [(''question'', PStr ''Q2'')], ''{"question": "Q2"}'')]\<close>

definition sample_lib :: pylib where
  "sample_lib =
     \<lparr>json_loads = map_of sample_json,
      json_dumps = (\<lambda>v. case map_of sample_dumps v of None \<Rightarrow> [] | Some s \<Rightarrow> s),
      py_str = sample_str,
      relevance_3f = (\<lambda>d. if d = Finite (1 / 4) then ''0.750'' else []),
      one_minus = (\<lambda>d. case d of Finite r \<Rightarrow> Finite (1 - r) | _ \<Rightarrow> d),
      re_search_word = (\<lambda>w s. False),
      round_str = (\<lambda>x. if x = 20000 then ''20000'' else []),
      format_2f = (\<lambda>x. if x = 1 / 2 then ''0.50'' else [])\<rparr>"

definition four_chunks :: "chunk list" where
  "four_chunks = [\<lparr>position = 0, chunk_text = ''a''\<rparr>, \<lparr>position = 1, chunk_text = ''b''\<rparr>,
                  \<lparr>position = 2, chunk_text = ''c''\<rparr>, \<lparr>position = 3, chunk_text = ''d''\<rparr>]"






section \<open>Properties of the chunker\<close>

lemma join_paras_snoc:
  "join_paras (cur @ [p]) = (if cur = [] then p else join_paras cur @ para_sep @ p)"
  by (induction cur rule: join_paras.induct) auto

lemma join_paras_empty: "[] \<notin> set cur \<Longrightarrow> (join_paras cur = []) = (cur = [])"
  by (induction cur rule: join_paras.induct) auto

lemma numbered_snoc: "numbered (ts @ [t]) = numbered ts @ [\<lparr>position = length ts, chunk_text = t\<rparr>]"
  by (simp add: numbered_def)


lemma chunk_step_eq:
  "chunk_step n (chunks, current, pos) p =
     (if int (length (if current \<noteq> [] then current @ para_sep @ p else p)) > n \<and> current \<noteq> []
      then (chunks @ [\<lparr>position = pos, chunk_text = current\<rparr>], p, pos + 1)
      else (chunks, (if current \<noteq> [] then current @ para_sep @ p else p), pos))"
  unfolding chunk_step_def Let_def prod.case by (rule refl)

lemma group_step_eq:
  "group_step n (dn, cur) p =
     (if int (length (join_paras (cur @ [p]))) > n \<and> cur \<noteq> []
      then (dn @ [cur], [p]) else (dn, cur @ [p]))"
  unfolding group_step_def prod.case by (rule refl)


lemma sim_pair:
  "sim (chunks, current, pos) (dn, cur) =
     (chunks = numbered (map join_paras dn) \<and> current = join_paras cur \<and> pos = length dn
      \<and> [] \<notin> set cur)"
  unfolding sim_def prod.case by (rule refl)

lemma sim_step_pair:
  assumes s: "sim (chunks, current, pos) (dn, cur)" and p: "p \<noteq> []"
  shows "sim (chunk_step n (chunks, current, pos) p) (group_step n (dn, cur) p)"
proof -
  from s have h1: "chunks = numbered (map join_paras dn)" and h2: "current = join_paras cur"
    and h3: "pos = length dn" and h4: "[] \<notin> set cur"
    unfolding sim_pair by blast+
  have e: "(join_paras cur = []) = (cur = [])" using h4 by (rule join_paras_empty)
  have c: "(current \<noteq> []) = (cur \<noteq> [])" unfolding h2 e by (rule refl)
  have comb: "(if current \<noteq> [] then current @ para_sep @ p else p) = join_paras (cur @ [p])"
    unfolding c unfolding h2 by (simp add: join_paras_snoc)
  show ?thesis
  proof (cases "int (length (join_paras (cur @ [p]))) > n \<and> cur \<noteq> []")
    case True
    then have cn: "current \<noteq> []" using c by blast
    have 1: "chunk_step n (chunks, current, pos) p
        = (chunks @ [\<lparr>position = pos, chunk_text = current\<rparr>], p, pos + 1)"
      unfolding chunk_step_eq comb using True cn by simp
    have 2: "group_step n (dn, cur) p = (dn @ [cur], [p])"
      unfolding group_step_eq using True by simp
    show ?thesis
      unfolding 1 2 unfolding sim_pair using h1 h2 h3 p by (simp add: numbered_snoc)
  next
    case False
    then have cn: "\<not> (int (length (join_paras (cur @ [p]))) > n \<and> current \<noteq> [])"
      using c by blast
    have 1: "chunk_step n (chunks, current, pos) p = (chunks, join_paras (cur @ [p]), pos)"
      unfolding chunk_step_eq comb using cn by simp
    have 2: "group_step n (dn, cur) p = (dn, cur @ [p])"
      unfolding group_step_eq using False by simp
    show ?thesis
      unfolding 1 2 unfolding sim_pair using h1 h3 h4 p by simp
  qed
qed


lemma sim_loop:
  "sim st gst \<Longrightarrow> [] \<notin> set ps \<Longrightarrow>
   sim (foldl (chunk_step n) st ps) (foldl (group_step n) gst ps)"
proof (induction ps arbitrary: st gst)
  case Nil then show ?case by simp
next
  case (Cons p ps)
  from Cons.prems have ne: "p \<noteq> []" and rest: "[] \<notin> set ps" by auto
  obtain chunks current pos where st: "st = (chunks, current, pos)" by (cases st)
  obtain dn cur where gst: "gst = (dn, cur)" by (cases gst)
  have "sim (chunk_step n st p) (group_step n gst p)"
    using Cons.prems(1) ne unfolding st gst by (rule sim_step_pair)
  then have "sim (foldl (chunk_step n) (chunk_step n st p) ps)
                 (foldl (group_step n) (group_step n gst p) ps)"
    using rest by (rule Cons.IH)
  then show ?case by simp
qed

lemma chunk_paragraphs_groups:
  assumes "[] \<notin> set ps"
  shows "chunk_paragraphs n ps = numbered (map join_paras (chunk_groups n ps))"
proof -
  have s0: "sim ([], [], 0) ([], [])" by (simp add: sim_pair numbered_def)
  obtain chunks current pos where st: "foldl (chunk_step n) ([], [], 0) ps = (chunks, current, pos)"
    by (cases "foldl (chunk_step n) ([], [], 0) ps")
  obtain dn cur where gst: "foldl (group_step n) ([], []) ps = (dn, cur)"
    by (cases "foldl (group_step n) ([], []) ps")
  have "sim (chunks, current, pos) (dn, cur)"
    using sim_loop[OF s0 assms, of n] by (simp only: st gst)
  then have h1: "chunks = numbered (map join_paras dn)" and h2: "current = join_paras cur"
    and h3: "pos = length dn" and h4: "[] \<notin> set cur"
    unfolding sim_pair by blast+
  have e: "(join_paras cur = []) = (cur = [])" using h4 by (rule join_paras_empty)
  have l: "chunk_paragraphs n ps =
    (if current \<noteq> [] then chunks @ [\<lparr>position = pos, chunk_text = current\<rparr>] else chunks)"
    by (simp add: chunk_paragraphs_def chunk_loop_def st)
  have r: "chunk_groups n ps = (if cur \<noteq> [] then dn @ [cur] else dn)"
    by (simp add: chunk_groups_def gst)
  show ?thesis
  proof (cases "cur = []")
    case True
    then show ?thesis unfolding l r using h1 h2 by simp
  next
    case False
    then have "current \<noteq> []" using h2 e by simp
    then show ?thesis unfolding l r using False h1 h2 h3 by (simp add: numbered_snoc)
  qed
qed











lemma numbered_length: "length (numbered ts) = length ts"
  by (simp add: numbered_def)

lemma numbered_position: "map position (numbered ts) = [0..<length ts]"
  by (rule nth_equalityI) (simp_all add: numbered_def)


lemma paragraphs_nonempty: "[] \<notin> set (paragraphs txt)"
  by (auto simp: paragraphs_def)





section \<open>Properties of the chunk summarizer and of the batch loop\<close>

lemma takeWhile_upto: "a \<notin> set pre \<Longrightarrow> takeWhile (\<lambda>x. x \<noteq> a) (pre @ a # rest) = pre"
  by (induction pre) auto

lemma py_find_decomp:
  "a \<notin> set pre \<Longrightarrow> py_find (pre @ a # rest) a = int (length pre)"
  by (simp add: py_find_def takeWhile_upto)

lemma py_rfind_decomp:
  "b \<notin> set post \<Longrightarrow> py_rfind (pre @ b # post) b = int (length pre)"
proof -
  assume n: "b \<notin> set post"
  then have "b \<notin> set (rev post)" by simp
  then have "takeWhile (\<lambda>x. x \<noteq> b) (rev post @ b # rev pre) = rev post"
    by (rule takeWhile_upto)
  then show ?thesis by (simp add: py_rfind_def)
qed

lemma span_decomp:
  assumes "a \<notin> set pre" and "b \<notin> set post"
  shows "span (pre @ a # mid @ b # post) a b = Some (a # mid @ [b])"
proof -
  have f: "py_find (pre @ a # mid @ b # post) a = int (length pre)"
    using assms(1) by (rule py_find_decomp)
  have "py_rfind ((pre @ a # mid) @ b # post) b = int (length (pre @ a # mid))"
    using assms(2) by (rule py_rfind_decomp)
  then have r: "py_rfind (pre @ a # mid @ b # post) b = int (length pre) + 1 + int (length mid)"
    by simp
  have n: "nat (int (length pre) + 1 + int (length mid) + 1 - int (length pre)) = Suc (Suc (length mid))"
    by simp
  have "py_slice (pre @ a # mid @ b # post) (int (length pre)) (int (length pre) + 1 + int (length mid) + 1)
      = a # mid @ [b]"
    unfolding py_slice_def n by simp
  then show ?thesis unfolding span_def f r by simp
qed

lemma span_absent: "a \<notin> set s \<Longrightarrow> span s a b = None"
  by (simp add: span_def py_find_def)

lemma parse_summary_span:
  "parse_summary L raw =
     (case json_loads L raw of
        Some v \<Rightarrow> v
      | None \<Rightarrow> (case span raw (CHR ''{'') (CHR ''}'') of
                  None \<Rightarrow> PNone
                | Some s \<Rightarrow> (case json_loads L s of Some v \<Rightarrow> v | None \<Rightarrow> PNone)))"
  by (simp add: parse_summary_def span_def Let_def split: option.splits)

lemma call_openai_log: "snd (call_openai cl prompt m lg)
    = lg @ [\<lparr>messages = prompt, model = ''gpt-4o-mini'', max_tokens = m, temperature = 0\<rparr>]"
  by (simp add: call_openai_def Let_def split: sum.splits)

lemma call_openai_fst: "fst (call_openai cl prompt m lg)
    = (case cl lg \<lparr>messages = prompt, model = ''gpt-4o-mini'', max_tokens = m, temperature = 0\<rparr> of
         Inl err \<Rightarrow> Inl err | Inr content \<Rightarrow> Inr (case content of None \<Rightarrow> [] | Some t \<Rightarrow> t))"
  by (simp add: call_openai_def Let_def split: sum.splits)

lemma psc_log: "snd (process_single_chunk L cl c book_id lg) = lg @ [summarize_request c]"
proof -
  obtain r lg1 where e: "call_openai cl (messages (summarize_request c)) 200 lg = (r, lg1)"
    by (cases "call_openai cl (messages (summarize_request c)) 200 lg")
  have "lg1 = lg @ [summarize_request c]"
    using call_openai_log[of cl "messages (summarize_request c)" 200 lg] e
    by (simp add: summarize_request_def)
  then show ?thesis using e
    by (simp add: process_single_chunk_def summarize_request_def Let_def split: sum.splits)
qed

lemma psc_total: "\<exists>d. fst (process_single_chunk L cl c book_id lg) = Inr d"
  by (simp add: process_single_chunk_def Let_def split: prod.splits sum.splits)

lemma psc_eq: "process_single_chunk L cl c book_id lg
    = (Inr (the_chunk L cl c book_id lg), lg @ [summarize_request c])"
proof -
  obtain d where "fst (process_single_chunk L cl c book_id lg) = Inr d" using psc_total by blast
  then have "fst (process_single_chunk L cl c book_id lg) = Inr (the_chunk L cl c book_id lg)"
    by (simp add: the_chunk_def)
  then show ?thesis using psc_log[of L cl c book_id lg] by (simp add: prod_eq_iff)
qed

lemma summarize_parsed_carries:
  "summarize_parsed L c book_id raw = Inr d \<Longrightarrow>
   db_text d = chunk_text c \<and> meta_position (metadata d) = position c
   \<and> bookId (metadata d) = book_id \<and> chunk_id d = make_chunk_id L book_id (position c)"
  by (auto simp: summarize_parsed_def Let_def split: if_splits pyval.splits)

lemma the_chunk_carries:
  "db_text (the_chunk L cl c book_id lg) = chunk_text c
   \<and> meta_position (metadata (the_chunk L cl c book_id lg)) = position c
   \<and> bookId (metadata (the_chunk L cl c book_id lg)) = book_id
   \<and> chunk_id (the_chunk L cl c book_id lg) = make_chunk_id L book_id (position c)"
  using summarize_parsed_carries
  by (auto simp: the_chunk_def process_single_chunk_def Let_def minimal_chunk_def
      split: prod.splits sum.splits)

lemma gather_workers:
  "gather (map (\<lambda>c. process_single_chunk L cl c book_id) cs) lg
     = (Inr (seq_results L cl book_id cs lg), lg @ map summarize_request cs)"
  by (induction cs arbitrary: lg) (simp_all add: psc_eq)

lemma seq_results_append:
  "seq_results L cl book_id (xs @ ys) lg
     = seq_results L cl book_id xs lg @ seq_results L cl book_id ys (lg @ map summarize_request xs)"
  by (induction xs arbitrary: lg) simp_all

lemma length_seq_results: "length (seq_results L cl book_id cs lg) = length cs"
  by (induction cs arbitrary: lg) simp_all

lemma seq_results_nth:
  "k < length cs \<Longrightarrow>
   seq_results L cl book_id cs lg ! k
     = the_chunk L cl (cs ! k) book_id (lg @ map summarize_request (take k cs))"
proof (induction cs arbitrary: lg k)
  case Nil then show ?case by simp
next
  case (Cons c cs)
  show ?case
  proof (cases k)
    case 0 then show ?thesis by simp
  next
    case (Suc j)
    then have "j < length cs" using Cons.prems by simp
    then show ?thesis using Cons.IH[of j "lg @ [summarize_request c]"] Suc by simp
  qed
qed

lemma range_step_Cons: "i < n \<Longrightarrow> 0 < step \<Longrightarrow> range_step i n step = i # range_step (i + step) n step"
  by (subst range_step.simps) simp

lemma range_step_Nil: "\<not> i < n \<Longrightarrow> range_step i n step = []"
  by (subst range_step.simps) simp

lemma drop_batch: "drop i chunks = batch_at chunks i @ drop (i + batch_size) chunks"
  unfolding batch_at_def by (metis add.commute append_take_drop_id drop_drop)

lemma batch_loop_range:
  "batch_loop L cl book_id chunks (range_step i (length chunks) batch_size) db lg
     = (Inr (db @ seq_results L cl book_id (drop i chunks) lg),
        lg @ map summarize_request (drop i chunks))"
proof (induction "length chunks - i" arbitrary: i db lg rule: less_induct)
  case less
  show ?case
  proof (cases "i < length chunks")
    case False
    then show ?thesis by (simp add: range_step_Nil)
  next
    case True
    have pos: "0 < batch_size" by (simp add: batch_size_def)
    have r: "range_step i (length chunks) batch_size
        = i # range_step (i + batch_size) (length chunks) batch_size"
      using True pos by (rule range_step_Cons)
    have "length chunks - (i + batch_size) < length chunks - i" using True pos by linarith
    then have ih: "batch_loop L cl book_id chunks (range_step (i + batch_size) (length chunks) batch_size) db' lg'
       = (Inr (db' @ seq_results L cl book_id (drop (i + batch_size) chunks) lg'),
          lg' @ map summarize_request (drop (i + batch_size) chunks))" for db' lg'
      by (rule less)
    have s: "seq_results L cl book_id (drop i chunks) lg
        = seq_results L cl book_id (batch_at chunks i) lg
          @ seq_results L cl book_id (drop (i + batch_size) chunks)
              (lg @ map summarize_request (batch_at chunks i))"
      by (subst drop_batch) (rule seq_results_append)
    have m: "map summarize_request (drop i chunks)
        = map summarize_request (batch_at chunks i)
          @ map summarize_request (drop (i + batch_size) chunks)"
      by (subst drop_batch) simp
    show ?thesis
      unfolding r s m by (simp add: gather_workers ih)
  qed
qed

lemma process_batches_eq:
  "process_batches L cl book_id chunks lg
     = (Inr (seq_results L cl book_id chunks lg), lg @ map summarize_request chunks)"
  using batch_loop_range[of L cl book_id chunks 0 "[]" lg]
  by (simp add: process_batches_def)

lemma concat_batches:
  "concat (map (batch_at chunks) (range_step i (length chunks) batch_size)) = drop i chunks"
proof (induction "length chunks - i" arbitrary: i rule: less_induct)
  case less
  show ?case
  proof (cases "i < length chunks")
    case False
    then show ?thesis by (simp add: range_step_Nil)
  next
    case True
    have pos: "0 < batch_size" by (simp add: batch_size_def)
    have r: "range_step i (length chunks) batch_size
        = i # range_step (i + batch_size) (length chunks) batch_size"
      using True pos by (rule range_step_Cons)
    have "length chunks - (i + batch_size) < length chunks - i" using True pos by linarith
    then have ih: "concat (map (batch_at chunks) (range_step (i + batch_size) (length chunks) batch_size))
        = drop (i + batch_size) chunks"
      by (rule less)
    show ?thesis unfolding r using ih drop_batch[of i chunks] by simp
  qed
qed

lemma range_step_bound: "j \<in> set (range_step i n step) \<Longrightarrow> j < n"
proof (induction "n - i" arbitrary: i rule: less_induct)
  case less
  show ?case
  proof (cases "i < n \<and> 0 < step")
    case False
    then have "range_step i n step = []" by (subst range_step.simps) simp
    then show ?thesis using less.prems by simp
  next
    case True
    then have r: "range_step i n step = i # range_step (i + step) n step"
      by (simp add: range_step_Cons)
    have "n - (i + step) < n - i" using True by linarith
    then have "j \<in> set (range_step (i + step) n step) \<Longrightarrow> j < n" by (rule less.hyps)
    then show ?thesis using less.prems True unfolding r by auto
  qed
qed

lemma batch_sizes:
  "j \<in> set (range_step 0 (length chunks) batch_size) \<Longrightarrow>
   1 \<le> length (batch_at chunks j) \<and> length (batch_at chunks j) \<le> batch_size"
  using range_step_bound[of j 0 "length chunks" batch_size]
  by (simp add: batch_at_def batch_size_def)

lemma psc_raise:
  "cl lg (summarize_request c) = Inl err \<Longrightarrow>
   fst (process_single_chunk L cl c book_id lg) = Inr (minimal_chunk L c book_id)"
  by (simp add: process_single_chunk_def summarize_request_def call_openai_def Let_def)

lemma psc_return:
  "cl lg (summarize_request c) = Inr content \<Longrightarrow>
   fst (process_single_chunk L cl c book_id lg)
     = (case summarize_parsed L c book_id (case content of None \<Rightarrow> [] | Some t \<Rightarrow> t) of
          Inl err \<Rightarrow> Inr (minimal_chunk L c book_id) | Inr r \<Rightarrow> Inr r)"
  by (simp add: process_single_chunk_def summarize_request_def call_openai_def Let_def split: sum.splits)

text \<open>
  C5. Summarizing a chunk never raises, sends exactly one completion request, and returns a
  record with the chunk's text, its position, the book id and the id built from both. The
  completion is parsed in tiers: the whole text, then the slice from the first \<^verbatim>\<open>{\<close> to
  the last \<^verbatim>\<open>}\<close>, else nothing. A non-empty dictionary gives its \<open>summary\<close>,
  \<open>key_concepts\<close> and \<open>keywords\<close> (absent ones defaulting to the first 200 characters of the
  completion text and to empty strings); a parse that yields nothing, or a false value,
  gives the first 200 characters of the completion text as summary, with empty key concepts
  and keywords; a true value that is not a dictionary, and a completion call that raises,
  give the first 200 characters of the chunk text as summary, with empty key concepts and
  keywords.
\<close>

theorem chunk_summarizer_tiers:
  "(\<exists>d. fst (process_single_chunk L cl c book_id lg) = Inr d
        \<and> db_text d = chunk_text c \<and> meta_position (metadata d) = position c
        \<and> bookId (metadata d) = book_id \<and> chunk_id d = make_chunk_id L book_id (position c))
   \<and> snd (process_single_chunk L cl c book_id lg) = lg @ [summarize_request c]
   \<and> (\<forall>v. json_loads L raw = Some v \<longrightarrow> parse_summary L raw = v)
   \<and> (\<forall>pre mid post. json_loads L raw = None \<and> raw = pre @ CHR ''{'' # mid @ CHR ''}'' # post
          \<and> CHR ''{'' \<notin> set pre \<and> CHR ''}'' \<notin> set post \<longrightarrow>
        parse_summary L raw
          = (case json_loads L (CHR ''{'' # mid @ ''}'') of Some v \<Rightarrow> v | None \<Rightarrow> PNone))
   \<and> (json_loads L raw = None \<and> span raw (CHR ''{'') (CHR ''}'') = None \<longrightarrow>
        parse_summary L raw = PNone)
   \<and> (\<forall>content. cl lg (summarize_request c) = Inr content
          \<and> raw = (case content of None \<Rightarrow> [] | Some t \<Rightarrow> t) \<longrightarrow>
        (\<forall>kvs. parse_summary L raw = PDict kvs \<and> kvs \<noteq> [] \<longrightarrow>
           fst (process_single_chunk L cl c book_id lg)
             = Inr \<lparr>chunk_id = make_chunk_id L book_id (position c), db_text = chunk_text c,
                    metadata = \<lparr>bookId = book_id, meta_position = position c,
                      summary = (case map_of kvs ''summary'' of None \<Rightarrow> PStr (take 200 raw) | Some v \<Rightarrow> v),
                      key_concepts = (case map_of kvs ''key_concepts'' of None \<Rightarrow> PStr [] | Some v \<Rightarrow> v),
                      keywords' = (case map_of kvs ''keywords'' of None \<Rightarrow> PStr [] | Some v \<Rightarrow> v)\<rparr>\<rparr>)
        \<and> (\<not> truthy (parse_summary L raw) \<longrightarrow>
           fst (process_single_chunk L cl c book_id lg)
             = Inr \<lparr>chunk_id = make_chunk_id L book_id (position c), db_text = chunk_text c,
                    metadata = \<lparr>bookId = book_id, meta_position = position c,
                      summary = PStr (take 200 raw), key_concepts = PStr [], keywords' = PStr []\<rparr>\<rparr>)
        \<and> (truthy (parse_summary L raw) \<and> (\<forall>kvs. parse_summary L raw \<noteq> PDict kvs) \<longrightarrow>
           fst (process_single_chunk L cl c book_id lg) = Inr (minimal_chunk L c book_id)))
   \<and> (\<forall>err. cl lg (summarize_request c) = Inl err \<longrightarrow>
        fst (process_single_chunk L cl c book_id lg)
          = Inr \<lparr>chunk_id = make_chunk_id L book_id (position c), db_text = chunk_text c,
                 metadata = \<lparr>bookId = book_id, meta_position = position c,
                   summary = PStr (take 200 (chunk_text c)), key_concepts = PStr [],
                   keywords' = PStr []\<rparr>\<rparr>)"
proof -
  have a: "\<exists>d. fst (process_single_chunk L cl c book_id lg) = Inr d
        \<and> db_text d = chunk_text c \<and> meta_position (metadata d) = position c
        \<and> bookId (metadata d) = book_id \<and> chunk_id d = make_chunk_id L book_id (position c)"
    using the_chunk_carries[of L cl c book_id lg] psc_eq[of L cl c book_id lg] by auto
  have b: "snd (process_single_chunk L cl c book_id lg) = lg @ [summarize_request c]"
    by (rule psc_log)
  have t1: "\<forall>v. json_loads L raw = Some v \<longrightarrow> parse_summary L raw = v"
    by (simp add: parse_summary_span)
  have t2: "\<forall>pre mid post. json_loads L raw = None \<and> raw = pre @ CHR ''{'' # mid @ CHR ''}'' # post
          \<and> CHR ''{'' \<notin> set pre \<and> CHR ''}'' \<notin> set post \<longrightarrow>
        parse_summary L raw
          = (case json_loads L (CHR ''{'' # mid @ ''}'') of Some v \<Rightarrow> v | None \<Rightarrow> PNone)"
    by (auto simp: parse_summary_span span_decomp)
  have t3: "json_loads L raw = None \<and> span raw (CHR ''{'') (CHR ''}'') = None \<longrightarrow>
        parse_summary L raw = PNone"
    by (simp add: parse_summary_span)
  have o: "\<forall>content. cl lg (summarize_request c) = Inr content
          \<and> raw = (case content of None \<Rightarrow> [] | Some t \<Rightarrow> t) \<longrightarrow>
        (\<forall>kvs. parse_summary L raw = PDict kvs \<and> kvs \<noteq> [] \<longrightarrow>
           fst (process_single_chunk L cl c book_id lg)
             = Inr \<lparr>chunk_id = make_chunk_id L book_id (position c), db_text = chunk_text c,
                    metadata = \<lparr>bookId = book_id, meta_position = position c,
                      summary = (case map_of kvs ''summary'' of None \<Rightarrow> PStr (take 200 raw) | Some v \<Rightarrow> v),
                      key_concepts = (case map_of kvs ''key_concepts'' of None \<Rightarrow> PStr [] | Some v \<Rightarrow> v),
                      keywords' = (case map_of kvs ''keywords'' of None \<Rightarrow> PStr [] | Some v \<Rightarrow> v)\<rparr>\<rparr>)
        \<and> (\<not> truthy (parse_summary L raw) \<longrightarrow>
           fst (process_single_chunk L cl c book_id lg)
             = Inr \<lparr>chunk_id = make_chunk_id L book_id (position c), db_text = chunk_text c,
                    metadata = \<lparr>bookId = book_id, meta_position = position c,
                      summary = PStr (take 200 raw), key_concepts = PStr [], keywords' = PStr []\<rparr>\<rparr>)
        \<and> (truthy (parse_summary L raw) \<and> (\<forall>kvs. parse_summary L raw \<noteq> PDict kvs) \<longrightarrow>
           fst (process_single_chunk L cl c book_id lg) = Inr (minimal_chunk L c book_id))"
  proof (intro allI impI, elim conjE)
    fix content
    assume r: "cl lg (summarize_request c) = Inr content"
      and raw: "raw = (case content of None \<Rightarrow> [] | Some t \<Rightarrow> t)"
    have e: "fst (process_single_chunk L cl c book_id lg)
       = (case summarize_parsed L c book_id raw of
            Inl err \<Rightarrow> Inr (minimal_chunk L c book_id) | Inr r \<Rightarrow> Inr r)"
      unfolding raw using r by (rule psc_return)
    show "(\<forall>kvs. parse_summary L raw = PDict kvs \<and> kvs \<noteq> [] \<longrightarrow>
           fst (process_single_chunk L cl c book_id lg)
             = Inr \<lparr>chunk_id = make_chunk_id L book_id (position c), db_text = chunk_text c,
                    metadata = \<lparr>bookId = book_id, meta_position = position c,
                      summary = (case map_of kvs ''summary'' of None \<Rightarrow> PStr (take 200 raw) | Some v \<Rightarrow> v),
                      key_concepts = (case map_of kvs ''key_concepts'' of None \<Rightarrow> PStr [] | Some v \<Rightarrow> v),
                      keywords' = (case map_of kvs ''keywords'' of None \<Rightarrow> PStr [] | Some v \<Rightarrow> v)\<rparr>\<rparr>)
        \<and> (\<not> truthy (parse_summary L raw) \<longrightarrow>
           fst (process_single_chunk L cl c book_id lg)
             = Inr \<lparr>chunk_id = make_chunk_id L book_id (position c), db_text = chunk_text c,
                    metadata = \<lparr>bookId = book_id, meta_position = position c,
                      summary = PStr (take 200 raw), key_concepts = PStr [], keywords' = PStr []\<rparr>\<rparr>)
        \<and> (truthy (parse_summary L raw) \<and> (\<forall>kvs. parse_summary L raw \<noteq> PDict kvs) \<longrightarrow>
           fst (process_single_chunk L cl c book_id lg) = Inr (minimal_chunk L c book_id))"
      unfolding e by (cases "parse_summary L raw") (simp_all add: summarize_parsed_def Let_def)
  qed
  have x: "\<forall>err. cl lg (summarize_request c) = Inl err \<longrightarrow>
        fst (process_single_chunk L cl c book_id lg)
          = Inr \<lparr>chunk_id = make_chunk_id L book_id (position c), db_text = chunk_text c,
                 metadata = \<lparr>bookId = book_id, meta_position = position c,
                   summary = PStr (take 200 (chunk_text c)), key_concepts = PStr [],
                   keywords' = PStr []\<rparr>\<rparr>"
    using psc_raise[of cl lg c _ L book_id] by (simp add: minimal_chunk_def)
  show ?thesis using a b t1 t2 t3 o x by (intro conjI)
qed

text \<open>
  C5, as first stated, takes the summary from the chunk text whenever both parses fail.
  For a completion that is not JSON the summary is the completion text instead.
\<close>

theorem chunk_summarizer_raw_counterexample:
  "fst (process_single_chunk sample_lib (\<lambda>lg req. Inr (Some ''Not JSON at all.''))
         \<lparr>position = 0, chunk_text = ''Chunk text.''\<rparr> (SInt 1) [])
     = Inr \<lparr>chunk_id = ''1-0'', db_text = ''Chunk text.'',
            metadata = \<lparr>bookId = SInt 1, meta_position = 0, summary = PStr ''Not JSON at all.'',
              key_concepts = PStr [], keywords' = PStr []\<rparr>\<rparr>
   \<and> PStr ''Not JSON at all.'' \<noteq> PStr (take 200 ''Chunk text.'')"
  by (simp add: process_single_chunk_def call_openai_def summarize_parsed_def parse_summary_def
      sample_lib_def sample_json_def py_find_def py_rfind_def make_chunk_id_def fmt_def
      sample_str_def nat_str.simps Let_def)

text \<open>
  C9. The chunks are cut into consecutive batches of at most three (at least one) that
  together are the chunk sequence; the batches run one after the other, the requests being
  sent in chunk order; the result list has one slot per chunk, slot \<open>k\<close> holding the
  worker's result for chunk \<open>k\<close> with that chunk's text and position, whatever the
  completion capability answers. On the chunks of a text the positions of the result are
  \<open>0, 1, 2, ...\<close> in order.
\<close>

theorem batch_order_preserved:
  "(\<exists>db. fst (process_batches L cl book_id chunks lg) = Inr db \<and> length db = length chunks
      \<and> (\<forall>k < length chunks.
            fst (process_single_chunk L cl (chunks ! k) book_id
                   (lg @ map summarize_request (take k chunks))) = Inr (db ! k)
            \<and> db_text (db ! k) = chunk_text (chunks ! k)
            \<and> meta_position (metadata (db ! k)) = position (chunks ! k)))
   \<and> snd (process_batches L cl book_id chunks lg) = lg @ map summarize_request chunks
   \<and> concat (map (batch_at chunks) (range_step 0 (length chunks) batch_size)) = chunks
   \<and> (\<forall>i \<in> set (range_step 0 (length chunks) batch_size).
         1 \<le> length (batch_at chunks i) \<and> length (batch_at chunks i) \<le> batch_size)
   \<and> batch_size = 3
   \<and> (\<forall>db. fst (process_batches L cl book_id (text_chunks n txt) lg) = Inr db \<longrightarrow>
         map (\<lambda>d. meta_position (metadata d)) db = [0..<length db])"
proof -
  let ?db = "seq_results L cl book_id chunks lg"
  have e: "process_batches L cl book_id chunks lg = (Inr ?db, lg @ map summarize_request chunks)"
    by (rule process_batches_eq)
  have slot: "\<forall>k < length chunks.
            fst (process_single_chunk L cl (chunks ! k) book_id
                   (lg @ map summarize_request (take k chunks))) = Inr (?db ! k)
            \<and> db_text (?db ! k) = chunk_text (chunks ! k)
            \<and> meta_position (metadata (?db ! k)) = position (chunks ! k)"
    by (simp add: seq_results_nth psc_eq the_chunk_carries)
  have 1: "\<exists>db. fst (process_batches L cl book_id chunks lg) = Inr db \<and> length db = length chunks
      \<and> (\<forall>k < length chunks.
            fst (process_single_chunk L cl (chunks ! k) book_id
                   (lg @ map summarize_request (take k chunks))) = Inr (db ! k)
            \<and> db_text (db ! k) = chunk_text (chunks ! k)
            \<and> meta_position (metadata (db ! k)) = position (chunks ! k))"
    using slot by (intro exI[of _ "?db"]) (simp add: e length_seq_results)
  have 2: "snd (process_batches L cl book_id chunks lg) = lg @ map summarize_request chunks"
    by (simp add: e)
  have 3: "concat (map (batch_at chunks) (range_step 0 (length chunks) batch_size)) = chunks"
    using concat_batches[of chunks 0] by simp
  have 4: "\<forall>i \<in> set (range_step 0 (length chunks) batch_size).
         1 \<le> length (batch_at chunks i) \<and> length (batch_at chunks i) \<le> batch_size"
    using batch_sizes by blast
  have 5: "\<forall>db. fst (process_batches L cl book_id (text_chunks n txt) lg) = Inr db \<longrightarrow>
         map (\<lambda>d. meta_position (metadata d)) db = [0..<length db]"
  proof (intro allI impI)
    fix db assume "fst (process_batches L cl book_id (text_chunks n txt) lg) = Inr db"
    then have db: "db = seq_results L cl book_id (text_chunks n txt) lg"
      by (simp add: process_batches_eq)
    have p: "map position (text_chunks n txt) = [0..<length (text_chunks n txt)]"
      using chunk_paragraphs_groups[OF paragraphs_nonempty, of n "txt"]
      by (simp add: text_chunks_def numbered_position numbered_length)
    show "map (\<lambda>d. meta_position (metadata d)) db = [0..<length db]"
    proof (rule nth_equalityI)
      show "length (map (\<lambda>d. meta_position (metadata d)) db) = length [0..<length db]" by simp
    next
      fix i assume "i < length (map (\<lambda>d. meta_position (metadata d)) db)"
      then have i: "i < length (text_chunks n txt)" by (simp add: db length_seq_results)
      then have "position (text_chunks n txt ! i) = i"
        using p by (metis add_0 nth_map nth_upt)
      then show "map (\<lambda>d. meta_position (metadata d)) db ! i = [0..<length db] ! i"
        using i by (simp add: db length_seq_results seq_results_nth the_chunk_carries)
    qed
  qed
  have 6: "batch_size = 3" by (simp add: batch_size_def)
  show ?thesis using 1 2 3 4 5 6 by (intro conjI)
qed

theorem chunk_summarizer_tiers_witness:
  \<open>fst (process_single_chunk sample_lib (\<lambda>lg req. Inr (Some ''Sure: {"summary": "S"} ok''))
         \<lparr>position = 0, chunk_text = ''Chunk text.''\<rparr> (SInt 1) [])
     = Inr \<lparr>chunk_id = ''1-0'', db_text = ''Chunk text.'',
            metadata = \<lparr>bookId = SInt 1, meta_position = 0, summary = PStr ''S'',
              key_concepts = PStr [], keywords' = PStr []\<rparr>\<rparr>
   \<and> fst (process_single_chunk sample_lib (\<lambda>lg req. Inl (CapabilityError ''down''))
         \<lparr>position = 0, chunk_text = ''Chunk text.''\<rparr> (SInt 1) [])
     = Inr \<lparr>chunk_id = ''1-0'', db_text = ''Chunk text.'',
            metadata = \<lparr>bookId = SInt 1, meta_position = 0, summary = PStr ''Chunk text.'',
              key_concepts = PStr [], keywords' = PStr []\<rparr>\<rparr>\<close>
proof -
  let ?c = "\<lparr>position = 0, chunk_text = ''Chunk text.''\<rparr>"
  let ?raw = \<open>''Sure: {"summary": "S"} ok''\<close>
  let ?cl1 = "\<lambda>(lg :: log) (req :: request). (Inr (Some ?raw) :: error + string option)"
  let ?cl2 = "\<lambda>(lg :: log) (req :: request). (Inl (CapabilityError ''down'') :: error + string option)"
  have id: "make_chunk_id sample_lib (SInt 1) 0 = ''1-0''"
    by (simp add: make_chunk_id_def fmt_def sample_lib_def sample_str_def nat_str.simps)
  have l0: "json_loads sample_lib ?raw = None"
    by (simp add: sample_lib_def sample_json_def)
  have l1: \<open>json_loads sample_lib (CHR ''{'' # ''"summary": "S"'' @ ''}'')
      = Some (PDict [(''summary'', PStr ''S'')])\<close>
    by (simp add: sample_lib_def sample_json_def)
  note t = chunk_summarizer_tiers[of sample_lib ?cl1 ?c "SInt 1" "[]" ?raw]
  note t2 = t[THEN conjunct2, THEN conjunct2, THEN conjunct2, THEN conjunct1, rule_format,
      of "''Sure: ''" \<open>''"summary": "S"''\<close> "'' ok''"]
  have p: \<open>parse_summary sample_lib ?raw = PDict [(''summary'', PStr ''S'')]\<close>
    using t2 l0 l1 by simp
  note o = t[THEN conjunct2, THEN conjunct2, THEN conjunct2, THEN conjunct2, THEN conjunct2,
      THEN conjunct1, rule_format, of "Some ?raw", THEN conjunct1, rule_format,
      of "[(''summary'', PStr ''S'')]"]
  have r1: "fst (process_single_chunk sample_lib ?cl1 ?c (SInt 1) [])
     = Inr \<lparr>chunk_id = ''1-0'', db_text = ''Chunk text.'',
            metadata = \<lparr>bookId = SInt 1, meta_position = 0, summary = PStr ''S'',
              key_concepts = PStr [], keywords' = PStr []\<rparr>\<rparr>"
    using o p id by simp
  note x = chunk_summarizer_tiers[of sample_lib ?cl2 ?c "SInt 1" "[]" "[]", THEN conjunct2,
      THEN conjunct2, THEN conjunct2, THEN conjunct2, THEN conjunct2, THEN conjunct2, rule_format,
      of "CapabilityError ''down''"]
  have r2: "fst (process_single_chunk sample_lib ?cl2 ?c (SInt 1) [])
     = Inr \<lparr>chunk_id = ''1-0'', db_text = ''Chunk text.'',
            metadata = \<lparr>bookId = SInt 1, meta_position = 0, summary = PStr ''Chunk text.'',
              key_concepts = PStr [], keywords' = PStr []\<rparr>\<rparr>"
    using x id by simp
  show ?thesis using r1 r2 by (rule conjI)
qed

theorem batch_order_preserved_witness:
  "(3::nat) < length four_chunks
   \<and> (\<exists>db. fst (process_batches sample_lib (\<lambda>lg req. Inl (CapabilityError ''down'')) (SInt 1)
                 four_chunks []) = Inr db
         \<and> length db = 4 \<and> db_text (db ! 3) = ''d'' \<and> meta_position (metadata (db ! 3)) = 3)
   \<and> range_step 0 (length four_chunks) batch_size = [0, 3]
   \<and> length (batch_at four_chunks 0) = 3 \<and> length (batch_at four_chunks 3) = 1"
proof -
  let ?cl = "\<lambda>(lg :: log) (req :: request). (Inl (CapabilityError ''down'') :: error + string option)"
  note t = batch_order_preserved[of sample_lib ?cl "SInt 1" four_chunks "[]"]
  from t[THEN conjunct1]
  obtain db where db: "fst (process_batches sample_lib ?cl (SInt 1) four_chunks []) = Inr db"
    "length db = length four_chunks"
    "\<forall>k < length four_chunks.
            fst (process_single_chunk sample_lib ?cl (four_chunks ! k) (SInt 1)
                   ([] @ map summarize_request (take k four_chunks))) = Inr (db ! k)
            \<and> db_text (db ! k) = chunk_text (four_chunks ! k)
            \<and> meta_position (metadata (db ! k)) = position (four_chunks ! k)"
    by (elim exE conjE)
  have l: "(3::nat) < length four_chunks" by (simp add: four_chunks_def)
  have "db_text (db ! 3) = chunk_text (four_chunks ! 3)
      \<and> meta_position (metadata (db ! 3)) = position (four_chunks ! 3)"
    using db(3)[rule_format, OF l] by (elim conjE) (rule conjI)
  then have s: "db_text (db ! 3) = ''d'' \<and> meta_position (metadata (db ! 3)) = 3"
    by (simp add: four_chunks_def)
  have n: "length db = 4" using db(2) by (simp add: four_chunks_def)
  have r: "range_step 0 (length four_chunks) batch_size = [0, 3]"
    by (simp add: four_chunks_def batch_size_def range_step.simps)
  have b: "length (batch_at four_chunks 0) = 3 \<and> length (batch_at four_chunks 3) = 1"
    by (simp add: four_chunks_def batch_at_def batch_size_def)
  have e: "\<exists>db. fst (process_batches sample_lib ?cl (SInt 1) four_chunks []) = Inr db
         \<and> length db = 4 \<and> db_text (db ! 3) = ''d'' \<and> meta_position (metadata (db ! 3)) = 3"
    using db(1) n s by (intro exI[of _ db] conjI) simp_all
  show ?thesis using l e r b by (intro conjI) simp_all
qed

section \<open>Properties of the question-list parser\<close>










section \<open>Properties of the performance estimate\<close>


end
